theory Spec2Isabelle
  imports Main "HOL-Library.Sublist"
begin

section \<open>The token usage tracker (class TokenTracker)\<close>

text \<open>
  The class has two attributes, set by \<open>__init__\<close> to \<open>0\<close> and \<open>[]\<close>. Python
  integers are unbounded, so the counters are \<open>int\<close>. The methods mutate the object in
  place; the model returns the updated tracker.
\<close>

record TokenTracker =
  total_tokens :: int
  batch_tokens :: "int list"

definition TokenTracker_init :: TokenTracker where
  "TokenTracker_init = \<lparr>total_tokens = 0, batch_tokens = []\<rparr>"

definition add_tokens :: "TokenTracker \<Rightarrow> int \<Rightarrow> TokenTracker" where
  "add_tokens self tokens =
     (let self1 = self\<lparr>total_tokens := total_tokens self + tokens\<rparr>
      in self1\<lparr>batch_tokens := batch_tokens self1 @ [tokens]\<rparr>)"

text \<open>
  \<open>get_summary\<close> returns a dictionary with the three fixed keys \<open>'total_tokens'\<close>,
  \<open>'batch_count'\<close> and \<open>'batch_tokens'\<close>; it is a record here, the field names
  prefixed because the tracker's own attributes already use two of the names.
\<close>

record summary =
  summary_total_tokens :: int
  summary_batch_count :: int
  summary_batch_tokens :: "int list"

definition get_summary :: "TokenTracker \<Rightarrow> summary" where
  "get_summary self =
     \<lparr>summary_total_tokens = total_tokens self,
      summary_batch_count = int (length (batch_tokens self)),
      summary_batch_tokens = batch_tokens self\<rparr>"

text \<open>The states a tracker can be in: fresh, or one \<open>add_tokens\<close> call later.\<close>

inductive reachable :: "TokenTracker \<Rightarrow> bool" where
  fresh: "reachable TokenTracker_init"
| added: "reachable t \<Longrightarrow> reachable (add_tokens t n)"

definition tracker_inv :: "TokenTracker \<Rightarrow> bool" where
  "tracker_inv t \<longleftrightarrow>
     total_tokens t = sum_list (batch_tokens t) \<and>
     summary_batch_count (get_summary t) = int (length (batch_tokens t))"

section \<open>Strings\<close>

text \<open>
  A Python string is a \<open>string\<close> here, a character being a code point below 256.
  \<open>str_join sep xs\<close> is \<open>sep.join(xs)\<close>.
\<close>

definition newline :: string where
  "newline = [CHR 0x0A]"

fun str_join :: "string \<Rightarrow> string list \<Rightarrow> string" where
  "str_join sep [] = []"
| "str_join sep [x] = x"
| "str_join sep (x # y # ys) = x @ sep @ str_join sep (y # ys)"

text \<open>
  \<open>str.strip()\<close> without argument removes leading and trailing whitespace, the
  characters for which \<open>str.isspace\<close> holds: below 256 these are the code points
  9 to 13, 28 to 32, 133 and 160.
\<close>

definition is_space :: "char \<Rightarrow> bool" where
  "is_space c \<longleftrightarrow>
     c \<in> set [CHR 0x09, CHR 0x0A, CHR 0x0B, CHR 0x0C, CHR 0x0D, CHR 0x1C, CHR 0x1D,
              CHR 0x1E, CHR 0x1F, CHR 0x20, CHR 0x85, CHR 0xA0]"

definition strip :: "string \<Rightarrow> string" where
  "strip s = rev (dropWhile is_space (rev (dropWhile is_space s)))"

text \<open>\<open>str(n)\<close> for an integer, and for a list of integers, as the f-strings print them.\<close>

fun str_nat :: "nat \<Rightarrow> string" where
  "str_nat n =
     (if n < 10 then [''0123456789'' ! n]
      else str_nat (n div 10) @ [''0123456789'' ! (n mod 10)])"

declare str_nat.simps [simp del]

definition str_int :: "int \<Rightarrow> string" where
  "str_int i = (if i < 0 then ''-'' @ str_nat (nat (- i)) else str_nat (nat i))"

definition str_int_list :: "int list \<Rightarrow> string" where
  "str_int_list xs = ''['' @ str_join '', '' (map str_int xs) @ '']''"

section \<open>The prompts\<close>

definition BATCH_SYSTEM_PROMPT :: string where
  "BATCH_SYSTEM_PROMPT = str_join newline
     [''You are a user search assistant. Your task is to find users from the provided list that match the search criteria.'',
      [],
      ''INSTRUCTIONS:'',
      ''1. Analyze the user question to understand what attributes/characteristics are being searched for'',
      ''2. Examine each user in the context and determine if they match the search criteria'',
      ''3. For matching users, extract and return their complete information'',
      ''4. Be inclusive - if a user partially matches or could potentially match, include them'',
      [],
      ''OUTPUT FORMAT:'',
      ''- If you find matching users: Return their full details exactly as provided, maintaining the original format'',
      ''- If no users match: Respond with exactly '' @ [CHR 0x22] @ ''NO_MATCHES_FOUND'' @ [CHR 0x22],
      ''- If uncertain about a match: Include the user with a note about why they might match'']"

definition FINAL_SYSTEM_PROMPT :: string where
  "FINAL_SYSTEM_PROMPT = str_join newline
     [''You are a helpful assistant that provides comprehensive answers based on user search results.'',
      [],
      ''INSTRUCTIONS:'',
      ''1. Review all the search results from different user batches'',
      ''2. Combine and deduplicate any matching users found across batches'',
      ''3. Present the information in a clear, organized manner'',
      ''4. If multiple users match, group them logically'',
      ''5. If no users match, explain what was searched for and suggest alternatives'']"

text \<open>\<open>USER_PROMPT.format(context=..., query=...)\<close>; the template's fourth line ends in a space.\<close>

definition USER_PROMPT :: "string \<Rightarrow> string \<Rightarrow> string" where
  "USER_PROMPT context query =
     ''## USER DATA:'' @ newline @ context @ newline @ newline @
     ''## SEARCH QUERY: '' @ newline @ query"

section \<open>The context formatter (join\_context)\<close>

text \<open>
  A user is a \<open>dict[str, Any]\<close>: its items in the dictionary's iteration order, as
  an association list. The f-string renders a value of any type through Python's
  \<open>format(value, '')\<close>, the parameter \<open>fmt\<close>. The two loops append to \<open>lines\<close>.
\<close>

type_synonym 'v user = "(string \<times> 'v) list"

text \<open>For a value that is itself a string, \<open>format(value, '')\<close> is the string.\<close>

definition format_str :: "string \<Rightarrow> string" where
  "format_str s = s"

fun user_lines :: "('v \<Rightarrow> string) \<Rightarrow> 'v user \<Rightarrow> string list \<Rightarrow> string list" where
  "user_lines fmt [] lines = lines"
| "user_lines fmt ((key, val) # items) lines =
     user_lines fmt items (lines @ [''  '' @ key @ '': '' @ fmt val])"

fun context_lines :: "('v \<Rightarrow> string) \<Rightarrow> 'v user list \<Rightarrow> string list \<Rightarrow> string list" where
  "context_lines fmt [] lines = lines"
| "context_lines fmt (user # users) lines =
     context_lines fmt users (user_lines fmt user (lines @ [''User:'']))"

definition join_context :: "('v \<Rightarrow> string) \<Rightarrow> 'v user list \<Rightarrow> string" where
  "join_context fmt context =
     (if context = [] then ''No user data available.''
      else str_join newline (context_lines fmt context []))"

text \<open>
  What the specification says of the output, in its words: per record a header line
  and one indented \<open>key: value\<close> line per field. \<open>split_on c s\<close> is \<open>s.split(c)\<close>,
  the physical lines of a text when \<open>c\<close> is the newline; a quote character is the
  double or the single quote.
\<close>

definition field_line :: "('v \<Rightarrow> string) \<Rightarrow> string \<times> 'v \<Rightarrow> string" where
  "field_line fmt kv = ''  '' @ fst kv @ '': '' @ fmt (snd kv)"

definition record_block :: "('v \<Rightarrow> string) \<Rightarrow> 'v user \<Rightarrow> string list" where
  "record_block fmt user = ''User:'' # map (field_line fmt) user"

fun split_on :: "char \<Rightarrow> string \<Rightarrow> string list" where
  "split_on c [] = [[]]"
| "split_on c (x # xs) =
     (if x = c then [] # split_on c xs
      else (case split_on c xs of [] \<Rightarrow> [[x]] | l # ls \<Rightarrow> (x # l) # ls))"

definition is_quote :: "char \<Rightarrow> bool" where
  "is_quote c \<longleftrightarrow> c = CHR 0x22 \<or> c = CHR 0x27"

section \<open>Batching\<close>

text \<open>
  The exceptions: \<open>ValueError\<close> of \<open>range\<close>, \<open>EOFError\<close> of \<open>input\<close>,
  \<open>AttributeError\<close> of a method looked up on a value that has none of that name,
  \<open>TypeError\<close> of \<open>+=\<close> on an integer and a value that is no number, and
  \<open>Raised msg\<close> for whatever the user client or the model client raises.
\<close>

datatype py_error = ValueError | EOFError | AttributeError | TypeError | Raised string

text \<open>
  \<open>range(start, stop, step)\<close> for natural numbers: \<open>ValueError\<close> when the step is
  zero. \<open>slice xs i j\<close> is \<open>xs[i:j]\<close> for \<open>0 \<le> i\<close> and \<open>0 \<le> j\<close>; a slice never
  fails, it is cut at the end of the list.
\<close>

function range_from :: "nat \<Rightarrow> nat \<Rightarrow> nat \<Rightarrow> nat list" where
  "range_from i stop step =
     (if 0 < step \<and> i < stop then i # range_from (i + step) stop step else [])"
  by pat_completeness auto
termination
  by (relation "measure (\<lambda>(i, stop, step). stop - i)") auto

declare range_from.simps [simp del]

definition py_range :: "nat \<Rightarrow> nat \<Rightarrow> nat \<Rightarrow> py_error + nat list" where
  "py_range start stop step =
     (if step = 0 then Inl ValueError else Inr (range_from start stop step))"

definition slice :: "'a list \<Rightarrow> nat \<Rightarrow> nat \<Rightarrow> 'a list" where
  "slice xs i j = take (j - i) (drop i xs)"

definition split_batches :: "nat \<Rightarrow> 'a list \<Rightarrow> py_error + 'a list list" where
  "split_batches bsize users =
     (case py_range 0 (length users) bsize of
        Inl e \<Rightarrow> Inl e
      | Inr starts \<Rightarrow> Inr (map (\<lambda>i. slice users i (i + bsize)) starts))"

definition batch_size :: nat where
  "batch_size = 100"

section \<open>The world: standard output, the external calls, the tracker\<close>

text \<open>
  The program's effects are explicit. \<open>stdout\<close> is the text printed so far, \<open>calls\<close>
  the calls made to the two external collaborators in the order they were issued,
  \<open>token_tracker\<close> the module's global tracker. What the collaborators do is the
  environment: the line \<open>input\<close> reads (\<open>None\<close> at end of input), the users the
  user client returns, the model's answer to the request issued as call number \<open>k\<close>,
  and the time at which that answer arrives. Each of them may raise.
\<close>

text \<open>
  The metadata of a response are a dictionary of values of any type. Under
  \<open>'token_usage'\<close> the client stores a dictionary, or \<open>None\<close> when the answer
  came without usage data; every other value is \<open>Other\<close>. In the usage dictionary
  \<open>'total_tokens'\<close> is an integer or \<open>None\<close>.
\<close>

datatype token_count = Count int | NoCount

datatype meta_value = Usage "string \<rightharpoonup> token_count" | NoUsage | Other string

record response =
  content :: string
  response_metadata :: "string \<rightharpoonup> meta_value"

datatype call = GetAllUsers | Ainvoke string string

record world =
  token_tracker :: TokenTracker
  stdout :: string
  calls :: "call list"

record 'v env =
  stdin_line :: "string option"
  get_all_users :: "py_error + 'v user list"
  ainvoke :: "nat \<Rightarrow> string \<Rightarrow> string \<Rightarrow> py_error + response"
  latency :: "nat \<Rightarrow> nat"

definition world_init :: world where
  "world_init = \<lparr>token_tracker = TokenTracker_init, stdout = [], calls = []\<rparr>"

definition py_print :: "string \<Rightarrow> world \<Rightarrow> world" where
  "py_print s w = w\<lparr>stdout := stdout w @ s @ newline\<rparr>"

definition dict_get :: "('k \<rightharpoonup> 'a) \<Rightarrow> 'k \<Rightarrow> 'a \<Rightarrow> 'a" where
  "dict_get d k dflt = (case d k of None \<Rightarrow> dflt | Some v \<Rightarrow> v)"

section \<open>One model call (generate\_response)\<close>

text \<open>
  The coroutine runs to its \<open>await\<close> (\<open>generate_response_start\<close>: the progress line,
  the request), is suspended until the answer arrives, and then records the usage and
  prints (\<open>generate_response_finish\<close>). An exception of the client is not caught.
\<close>

definition generate_response_start :: "string \<Rightarrow> string \<Rightarrow> world \<Rightarrow> world" where
  "generate_response_start system_prompt user_message w =
     (let w1 = py_print ''Processing...'' w
      in w1\<lparr>calls := calls w1 @ [Ainvoke system_prompt user_message]\<rparr>)"

text \<open>
  Line 98: \<open>response.response_metadata.get('token_usage', {}).get('total_tokens', 0)\<close>.
  The first \<open>get\<close> gives the empty dictionary only when the key is absent; the
  second \<open>get\<close> is looked up on whatever the first one returned, and only a
  dictionary has it.
\<close>

definition token_usage_of :: "response \<Rightarrow> py_error + token_count" where
  "token_usage_of r =
     (case dict_get (response_metadata r) ''token_usage'' (Usage Map.empty) of
        Usage usage \<Rightarrow> Inr (dict_get usage ''total_tokens'' (Count 0))
      | NoUsage \<Rightarrow> Inl AttributeError
      | Other v \<Rightarrow> Inl AttributeError)"

text \<open>
  \<open>add_tokens\<close> is declared for an integer. Called with \<open>None\<close>, its first
  statement \<open>self.total_tokens += tokens\<close> raises \<open>TypeError\<close> and nothing is
  stored. Neither exception is caught: the two \<open>print\<close> calls are not reached.
\<close>

definition generate_response_finish ::
  "response \<Rightarrow> world \<Rightarrow> (py_error + string) \<times> world" where
  "generate_response_finish r w =
     (case token_usage_of r of
        Inl e \<Rightarrow> (Inl e, w)
      | Inr NoCount \<Rightarrow> (Inl TypeError, w)
      | Inr (Count token_usage) \<Rightarrow>
          (let w1 = w\<lparr>token_tracker := add_tokens (token_tracker w) token_usage\<rparr>;
               w2 = py_print (''Response content: '' @ content r) w1;
               w3 = py_print (''Total tokens: '' @ str_int token_usage) w2
           in (Inr (content r), w3)))"

definition generate_response ::
  "'v env \<Rightarrow> string \<Rightarrow> string \<Rightarrow> world \<Rightarrow> (py_error + string) \<times> world" where
  "generate_response env system_prompt user_message w =
     (let w1 = generate_response_start system_prompt user_message w
      in case ainvoke env (length (calls w)) system_prompt user_message of
           Inl e \<Rightarrow> (Inl e, w1)
         | Inr r \<Rightarrow> generate_response_finish r w1)"

text \<open>The answers whose usage line 98 reads as an integer.\<close>

definition usage_readable :: "response \<Rightarrow> bool" where
  "usage_readable r \<longleftrightarrow>
     (case token_usage_of r of Inr (Count n) \<Rightarrow> True | Inr NoCount \<Rightarrow> False | Inl e \<Rightarrow> False)"

section \<open>The concurrent batch calls (asyncio.gather)\<close>

text \<open>
  \<open>gather\<close> starts the coroutines in the order given; each runs to its \<open>await\<close>.
  The answers then arrive in the order of their arrival times (equal times in the
  order of the tasks), and each coroutine finishes when its answer arrives. The
  result of task \<open>i\<close> is stored at position \<open>i\<close>. The first exception, of the
  client or of the coroutine's own last steps, is raised to the caller; before it
  reaches the caller the coroutines whose answers arrived at that same time still
  finish (\<open>drain\<close>; a further exception among them is dropped), and the coroutines
  still waiting never finish.
\<close>

fun dispatch :: "(string \<times> string) list \<Rightarrow> world \<Rightarrow> world" where
  "dispatch [] w = w"
| "dispatch ((system_prompt, user_message) # tasks) w =
     dispatch tasks (generate_response_start system_prompt user_message w)"

fun drain ::
  "(nat \<Rightarrow> nat) \<Rightarrow> nat \<Rightarrow> (nat \<times> (py_error + response)) list \<Rightarrow> world \<Rightarrow> world" where
  "drain arrival t [] w = w"
| "drain arrival t ((i, a) # arrivals) w =
     (if arrival i = t then
        (case a of
           Inl e \<Rightarrow> drain arrival t arrivals w
         | Inr r \<Rightarrow> drain arrival t arrivals (snd (generate_response_finish r w)))
      else w)"

fun complete ::
  "(nat \<Rightarrow> nat) \<Rightarrow> (nat \<times> (py_error + response)) list \<Rightarrow> string list \<Rightarrow> world \<Rightarrow>
     (py_error + string list) \<times> world" where
  "complete arrival [] results w = (Inr results, w)"
| "complete arrival ((i, Inl e) # arrivals) results w =
     (Inl e, drain arrival (arrival i) arrivals w)"
| "complete arrival ((i, Inr r) # arrivals) results w =
     (case generate_response_finish r w of
        (Inl e, w1) \<Rightarrow> (Inl e, drain arrival (arrival i) arrivals w1)
      | (Inr c, w1) \<Rightarrow> complete arrival arrivals (results[i := c]) w1)"

definition answers ::
  "'v env \<Rightarrow> nat \<Rightarrow> (string \<times> string) list \<Rightarrow> (nat \<times> (py_error + response)) list" where
  "answers env base tasks =
     map (\<lambda>(i, (system_prompt, user_message)).
            (i, ainvoke env (base + i) system_prompt user_message))
         (enumerate 0 tasks)"

definition gather ::
  "'v env \<Rightarrow> (string \<times> string) list \<Rightarrow> world \<Rightarrow> (py_error + string list) \<times> world" where
  "gather env tasks w =
     (let base = length (calls w);
          w1 = dispatch tasks w;
          arrival = (\<lambda>i. latency env (base + i));
          arrivals = sort_key (\<lambda>(i, a). arrival i) (answers env base tasks)
      in complete arrival arrivals (replicate (length tasks) []) w1)"

section \<open>The search (main)\<close>

definition filter_results :: "string list \<Rightarrow> string list" where
  "filter_results batch_result = [res \<leftarrow> batch_result. strip res \<noteq> ''NO_MATCHES_FOUND'']"

definition print_summary :: "world \<Rightarrow> world" where
  "print_summary w =
     (let summary = get_summary (token_tracker w);
          w1 = py_print (newline @ ''--- Token Usage Summary ---'') w;
          w2 = py_print (''Total tokens used: '' @ str_int (summary_total_tokens summary)) w1;
          w3 = py_print (''Number of batches processed: '' @
                 str_int (summary_batch_count summary)) w2
      in py_print (''Tokens used per batch: '' @
           str_int_list (summary_batch_tokens summary)) w3)"

text \<open>Steps 5 to 7 of \<open>main\<close>: from the gathered batch results to the usage summary.\<close>

definition aggregate_results ::
  "'v env \<Rightarrow> string \<Rightarrow> string list \<Rightarrow> world \<Rightarrow> (py_error + unit) \<times> world" where
  "aggregate_results env user_question batch_result w =
     (let filtered_results = filter_results batch_result
      in if filtered_results \<noteq> [] then
           (let combined_results = str_join (newline @ newline) filtered_results
            in case generate_response env FINAL_SYSTEM_PROMPT
                      (''## SEARCH RESULTS:'' @ newline @ combined_results @ newline @
                       newline @ ''## ORIGINAL QUERY:'' @ newline @ user_question) w of
                 (Inl e, w1) \<Rightarrow> (Inl e, w1)
               | (Inr c, w1) \<Rightarrow> (Inr (), print_summary w1))
         else
           (Inr (), print_summary
              (py_print ''No users found matching the search criteria.'' w)))"

text \<open>Steps 1 to 4 and on: the body of \<open>if user_question\<close>.\<close>

definition search ::
  "('v \<Rightarrow> string) \<Rightarrow> 'v env \<Rightarrow> string \<Rightarrow> world \<Rightarrow> (py_error + unit) \<times> world" where
  "search fmt env user_question w =
     (let w1 = py_print (newline @ ''--- Searching user database ---'') w;
          w2 = w1\<lparr>calls := calls w1 @ [GetAllUsers]\<rparr>
      in case get_all_users env of
           Inl e \<Rightarrow> (Inl e, w2)
         | Inr users \<Rightarrow>
             (case split_batches batch_size users of
                Inl e \<Rightarrow> (Inl e, w2)
              | Inr user_batches \<Rightarrow>
                  (let tasks = map (\<lambda>user_batch.
                         (BATCH_SYSTEM_PROMPT,
                          USER_PROMPT (join_context fmt user_batch) user_question))
                         user_batches
                   in case gather env tasks w2 of
                        (Inl e, w3) \<Rightarrow> (Inl e, w3)
                      | (Inr batch_result, w3) \<Rightarrow>
                          aggregate_results env user_question batch_result w3)))"

definition main :: "('v \<Rightarrow> string) \<Rightarrow> 'v env \<Rightarrow> world \<Rightarrow> (py_error + unit) \<times> world" where
  "main fmt env w =
     (let w1 = py_print ''Query samples:'' w;
          w2 = py_print '' - Do we have someone with name John that loves traveling?'' w1;
          w3 = w2\<lparr>stdout := stdout w2 @ ''> ''\<rparr>
      in case stdin_line env of
           None \<Rightarrow> (Inl EOFError, w3)
         | Some line \<Rightarrow>
             (let user_question = strip line
              in if user_question \<noteq> [] then search fmt env user_question w3
                 else (Inr (), w3)))"

section \<open>Environments for the worked examples\<close>

text \<open>
  The operator enters a blank line; the model answers the first request with the
  sentinel and no usage entry, the second with a match and 120 tokens, every later one
  with the sentinel between spaces and 80 tokens; later requests are answered earlier.
  In the second environment every answer is a match whose metadata hold
  \<open>'token_usage': None\<close>; in the third the usage dictionary holds
  \<open>'total_tokens': None\<close>.
\<close>

definition example_env :: "string env" where
  "example_env =
     \<lparr>stdin_line = Some ''   '',
      get_all_users = Inr [[(''name'', ''Jane''), (''age'', ''30'')]],
      ainvoke = (\<lambda>k system_prompt user_message.
         if k = 0 then Inr \<lparr>content = ''NO_MATCHES_FOUND'', response_metadata = Map.empty\<rparr>
         else if k = 1 then
           Inr \<lparr>content = ''Jane, age 30'',
                response_metadata = [''token_usage'' \<mapsto> Usage [''total_tokens'' \<mapsto> Count 120]]\<rparr>
         else Inr \<lparr>content = ''  NO_MATCHES_FOUND  '',
                   response_metadata = [''token_usage'' \<mapsto> Usage [''total_tokens'' \<mapsto> Count 80]]\<rparr>),
      latency = (\<lambda>k. 10 - k)\<rparr>"

definition usage_none_env :: "string env" where
  "usage_none_env =
     example_env\<lparr>ainvoke := (\<lambda>k system_prompt user_message.
        Inr \<lparr>content = ''Jane, age 30'',
             response_metadata = [''token_usage'' \<mapsto> NoUsage]\<rparr>)\<rparr>"

definition total_none_env :: "string env" where
  "total_none_env =
     example_env\<lparr>ainvoke := (\<lambda>k system_prompt user_message.
        Inr \<lparr>content = ''Jane, age 30'',
             response_metadata = [''token_usage'' \<mapsto> Usage [''total_tokens'' \<mapsto> NoCount]]\<rparr>)\<rparr>"

section \<open>Properties of the tracker\<close>

lemma add_tokens_fields:
  "total_tokens (add_tokens t n) = total_tokens t + n"
  "batch_tokens (add_tokens t n) = batch_tokens t @ [n]"
  by (simp_all add: add_tokens_def Let_def)

lemma foldl_add_tokens_fields:
  "total_tokens (foldl add_tokens t ns) = total_tokens t + sum_list ns \<and>
   batch_tokens (foldl add_tokens t ns) = batch_tokens t @ ns"
proof (induction ns arbitrary: t)
  case Nil
  show ?case by simp
next
  case (Cons n ns)
  show ?case
    using Cons.IH [of "add_tokens t n"] by (simp add: add_tokens_fields)
qed

lemma tracker_inv_add_tokens:
  "tracker_inv t \<Longrightarrow> tracker_inv (add_tokens t n)"
  by (simp add: tracker_inv_def add_tokens_fields get_summary_def)

lemma reachable_tracker_inv:
  "reachable t \<Longrightarrow> tracker_inv t"
proof (induction rule: reachable.induct)
  case fresh
  show ?case by (simp add: tracker_inv_def TokenTracker_init_def get_summary_def)
next
  case (added t n)
  then show ?case by (simp add: tracker_inv_add_tokens)
qed

lemma reachable_foldl_from:
  "reachable t \<Longrightarrow> reachable (foldl add_tokens t ns)"
  by (induction ns arbitrary: t) (simp_all add: reachable.added)

lemma reachable_foldl:
  "reachable (foldl add_tokens TokenTracker_init ns)"
  by (rule reachable_foldl_from) (rule reachable.fresh)

text \<open>
  C9. One \<open>add_tokens\<close> call adds the count to the running total and appends it to
  the per-call sequence; after any sequence of calls the summary holds the total
  (the old total plus the sum of the counts), the number of recorded calls and the
  counts in recording order. From a fresh tracker, adding 120 and then 80 gives
  total 200, batch count 2 and the sequence [120, 80].
\<close>

theorem C9_tracker_add_and_summary:
  "total_tokens (add_tokens t n) = total_tokens t + n \<and>
   batch_tokens (add_tokens t n) = batch_tokens t @ [n] \<and>
   get_summary (foldl add_tokens t ns) =
     \<lparr>summary_total_tokens = total_tokens t + sum_list ns,
      summary_batch_count = int (length (batch_tokens t)) + int (length ns),
      summary_batch_tokens = batch_tokens t @ ns\<rparr> \<and>
   get_summary (add_tokens (add_tokens TokenTracker_init 120) 80) =
     \<lparr>summary_total_tokens = 200, summary_batch_count = 2,
      summary_batch_tokens = [120, 80]\<rparr>"
proof -
  have one: "total_tokens (add_tokens t n) = total_tokens t + n"
    "batch_tokens (add_tokens t n) = batch_tokens t @ [n]"
    by (rule add_tokens_fields)+
  have many: "get_summary (foldl add_tokens t ns) =
     \<lparr>summary_total_tokens = total_tokens t + sum_list ns,
      summary_batch_count = int (length (batch_tokens t)) + int (length ns),
      summary_batch_tokens = batch_tokens t @ ns\<rparr>"
    using foldl_add_tokens_fields [of t ns] by (simp add: get_summary_def)
  have example: "get_summary (add_tokens (add_tokens TokenTracker_init 120) 80) =
     \<lparr>summary_total_tokens = 200, summary_batch_count = 2,
      summary_batch_tokens = [120, 80]\<rparr>"
    by (simp add: get_summary_def add_tokens_def TokenTracker_init_def Let_def)
  from one many example show ?thesis by blast
qed

text \<open>
  C10. In every state reachable from a fresh tracker by \<open>add_tokens\<close> calls (as
  an inductive predicate, and as the fold of \<open>add_tokens\<close> over any list of counts),
  \<open>total_tokens\<close> is the sum of \<open>batch_tokens\<close> and the summary's batch count
  is the length of \<open>batch_tokens\<close>; every \<open>add_tokens\<close> call preserves this.
\<close>

theorem C10_tracker_invariant:
  "(reachable t \<longrightarrow> tracker_inv t) \<and>
   tracker_inv (foldl add_tokens TokenTracker_init ns) \<and>
   (tracker_inv t \<longrightarrow> tracker_inv (add_tokens t n))"
  using reachable_tracker_inv reachable_foldl tracker_inv_add_tokens by blast

theorem C10_tracker_invariant_witness:
  "reachable (add_tokens (add_tokens TokenTracker_init 120) 80) \<and>
   tracker_inv (add_tokens (add_tokens TokenTracker_init 120) 80) \<and>
   tracker_inv (add_tokens (add_tokens (add_tokens TokenTracker_init 120) 80) 5)"
proof -
  have r: "reachable (add_tokens (add_tokens TokenTracker_init 120) 80)"
    by (intro reachable.intros)
  from C10_tracker_invariant [of "add_tokens (add_tokens TokenTracker_init 120) 80" "[]" 5] r
  show ?thesis by blast
qed

section \<open>Properties of the batching step\<close>

lemma range_from_step:
  "0 < step \<Longrightarrow> i < stop \<Longrightarrow> range_from i stop step = i # range_from (i + step) stop step"
  by (subst range_from.simps) simp

lemma range_from_done:
  "stop \<le> i \<Longrightarrow> range_from i stop step = []"
  by (subst range_from.simps) simp

lemma concat_slices:
  "0 < B \<Longrightarrow> n = length xs \<Longrightarrow>
   concat (map (\<lambda>j. slice xs j (j + B)) (range_from i n B)) = drop i xs"
proof (induction i n B rule: range_from.induct)
  case (1 i stop step)
  show ?case
  proof (cases "i < stop")
    case True
    have "take step (drop i xs) @ drop (i + step) xs = drop i xs"
      using append_take_drop_id [of step "drop i xs"] by (simp add: add.commute)
    with True "1.IH" "1.prems" show ?thesis
      by (simp add: range_from_step slice_def)
  next
    case False
    with "1.prems" show ?thesis by (simp add: range_from_done)
  qed
qed

lemma length_slices:
  "0 < B \<Longrightarrow> n = length xs \<Longrightarrow>
   map length (map (\<lambda>j. slice xs j (j + B)) (range_from i n B)) =
     replicate ((n - i) div B) B @ (if (n - i) mod B = 0 then [] else [(n - i) mod B])"
proof (induction i n B rule: range_from.induct)
  case (1 i stop step)
  show ?case
  proof (cases "i < stop")
    case False
    with "1.prems" show ?thesis by (simp add: range_from_done)
  next
    case True
    show ?thesis
    proof (cases "step \<le> stop - i")
      case full: True
      have d: "(stop - i) div step = Suc ((stop - (i + step)) div step)"
        using full "1.prems"(1) by (simp add: le_div_geq)
      have m: "(stop - i) mod step = (stop - (i + step)) mod step"
        using full by (simp add: le_mod_geq)
      have l: "length (slice xs i (i + step)) = step"
        using full "1.prems"(2) by (simp add: slice_def)
      from True "1.IH" "1.prems" d m l show ?thesis
        by (simp add: range_from_step)
    next
      case short: False
      have l: "length (slice xs i (i + step)) = stop - i"
        using short "1.prems"(2) by (simp add: slice_def)
      have r: "range_from (i + step) stop step = []"
        using short by (simp add: range_from_done)
      from True short "1.prems" l r show ?thesis
        by (simp add: range_from_step)
    qed
  qed
qed

lemma split_batches_pos:
  "0 < B \<Longrightarrow> split_batches B users = Inr (map (\<lambda>j. slice users j (j + B)) (range_from 0 (length users) B))"
  by (simp add: split_batches_def py_range_def)

lemma butlast_sizes:
  "set (butlast (replicate q (B::nat) @ (if r = 0 then [] else [r]))) \<subseteq> {B}"
  by (cases q) (auto simp: butlast_append dest: in_set_butlastD)

lemma ceil_div:
  fixes n B :: nat
  assumes "0 < B"
  shows "(n + B - 1) div B = n div B + (if n mod B = 0 then 0 else 1)"
proof -
  define q r where "q = n div B" and "r = n mod B"
  obtain b where B: "B = Suc b"
    using assms by (cases B) auto
  have n: "n = r + q * B" and r: "r < B"
    using assms by (simp_all add: q_def r_def)
  have "n + B - 1 = (r + b) + q * B"
    by (simp add: n B)
  then have "(n + B - 1) div B = (r + b + q * B) div B"
    by simp
  also have "\<dots> = q + (r + b) div B"
    using assms by (rule_tac div_mult_self1) simp
  also have "(r + b) div B = (if r = 0 then 0 else 1)"
  proof (cases "r = 0")
    case True
    then show ?thesis by (simp add: B)
  next
    case False
    with r have "B \<le> r + b" "r + b - B < B" by (simp_all add: B)
    then have "(r + b) div B = Suc ((r + b - B) div B)"
      using assms by (simp add: le_div_geq)
    with False \<open>r + b - B < B\<close> show ?thesis by simp
  qed
  finally show ?thesis by (simp add: q_def r_def)
qed

lemma split_batches_props:
  fixes users :: "'a list" and B :: nat and bs :: "'a list list"
  assumes B: "0 < B"
  defines "bs \<equiv> map (\<lambda>j. slice users j (j + B)) (range_from 0 (length users) B)"
  shows "split_batches B users = Inr bs"
    and "length bs = (length users + B - 1) div B"
    and "map length bs =
           replicate (length users div B) B @
           (if length users mod B = 0 then [] else [length users mod B])"
    and "\<forall>b \<in> set (butlast bs). length b = B"
    and "\<forall>b \<in> set bs. 0 < length b \<and> length b \<le> B"
    and "concat bs = users"
proof -
  show "split_batches B users = Inr bs"
    using B by (simp add: bs_def split_batches_pos)
  show sizes: "map length bs =
           replicate (length users div B) B @
           (if length users mod B = 0 then [] else [length users mod B])"
    unfolding bs_def using length_slices [OF B refl, of users 0] by simp
  have "length (map length bs) = (length users + B - 1) div B"
    by (simp only: sizes ceil_div [OF B] length_append length_replicate) simp
  then show "length bs = (length users + B - 1) div B" by simp
  show "\<forall>b \<in> set (butlast bs). length b = B"
  proof
    fix b assume "b \<in> set (butlast bs)"
    then have "length b \<in> set (butlast (map length bs))"
      by (simp add: map_butlast [symmetric])
    with butlast_sizes [of "length users div B" B "length users mod B"]
    show "length b = B" by (auto simp only: sizes)
  qed
  show "\<forall>b \<in> set bs. 0 < length b \<and> length b \<le> B"
  proof
    fix b assume "b \<in> set bs"
    then have "length b \<in> set (map length bs)" by simp
    then have "length b \<in> set (replicate (length users div B) B @
           (if length users mod B = 0 then [] else [length users mod B]))"
      by (simp only: sizes)
    moreover have "length users mod B < B"
      using B by simp
    ultimately show "0 < length b \<and> length b \<le> B"
      using B by (auto split: if_splits)
  qed
  show "concat bs = users"
    unfolding bs_def using concat_slices [OF B refl, of users 0] by simp
qed

text \<open>
  C1. For every list of users, the batching step with batch size 100 does not fail and
  yields \<open>ceil(N / 100)\<close> batches: all of size exactly 100, except possibly the last,
  which is shorter and not empty; concatenated in order they are the original list.
\<close>

theorem C1_batching:
  "\<exists>user_batches. split_batches batch_size users = Inr user_batches \<and>
     length user_batches = (length users + 99) div 100 \<and>
     map length user_batches =
       replicate (length users div 100) 100 @
       (if length users mod 100 = 0 then [] else [length users mod 100]) \<and>
     (\<forall>b \<in> set (butlast user_batches). length b = 100) \<and>
     (\<forall>b \<in> set user_batches. 0 < length b \<and> length b \<le> 100) \<and>
     concat user_batches = users"
proof -
  have B: "0 < (100::nat)" by simp
  note props = split_batches_props [OF B, of users]
  have "(length users + 100 - 1) div 100 = (length users + 99) div 100"
    by simp
  with props show ?thesis
    unfolding batch_size_def by (intro exI conjI) (assumption | simp only:)+
qed

theorem C1_batching_witness:
  "split_batches batch_size [0..<250] = Inr [[0..<100], [100..<200], [200..<250]] \<and>
   length [[0..<100], [100..<200], [200..<250]] = (length [0..<250] + 99) div 100 \<and>
   [0..<100] \<in> set (butlast [[0..<100], [100..<200], [200..<250]]) \<and>
   length [0..<100] = 100 \<and>
   [200..<250] \<in> set [[0..<100], [100..<200], [200..<250]] \<and>
   0 < length [200..<250] \<and> length [200..<250] \<le> 100 \<and>
   concat [[0..<100], [100..<200], [200..<250]] = [0..<250]"
proof -
  have run: "split_batches batch_size [0..<250] = Inr [[0..<100], [100..<200], [200..<250]]"
    by code_simp
  from C1_batching [of "[0..<250]"] obtain bs where
    bs: "split_batches batch_size [0..<250] = Inr bs"
      "\<forall>b \<in> set (butlast bs). length b = 100"
      "\<forall>b \<in> set bs. 0 < length b \<and> length b \<le> 100"
      "concat bs = [0..<250]"
    by blast
  from run bs(1) have eq: "bs = [[0..<100], [100..<200], [200..<250]]"
    by simp
  from bs(2-4) show ?thesis
    unfolding eq using run by simp
qed

section \<open>Properties of the context formatter\<close>

lemma user_lines_eq: "user_lines fmt user lines = lines @ map (field_line fmt) user"
  by (induction fmt user lines rule: user_lines.induct) (simp_all add: field_line_def)

lemma context_lines_eq:
  "context_lines fmt users lines = lines @ concat (map (record_block fmt) users)"
  by (induction users arbitrary: lines) (simp_all add: user_lines_eq record_block_def)

lemma split_on_no_sep: "c \<notin> set l \<Longrightarrow> split_on c l = [l]"
  by (induction l) auto

lemma split_on_append: "c \<notin> set l \<Longrightarrow> split_on c (l @ c # rest) = l # split_on c rest"
  by (induction l) auto

lemma split_on_join:
  "ls \<noteq> [] \<Longrightarrow> \<forall>l \<in> set ls. c \<notin> set l \<Longrightarrow> split_on c (str_join [c] ls) = ls"
  by (induction "[c]" ls rule: str_join.induct) (simp_all add: split_on_no_sep split_on_append)

lemma set_str_join: "set (str_join sep ls) \<subseteq> set sep \<union> \<Union> (set ` set ls)"
  by (induction sep ls rule: str_join.induct) auto

lemma set_field_line:
  "set (field_line fmt kv) = {CHR '' '', CHR '':''} \<union> set (fst kv) \<union> set (fmt (snd kv))"
  by (auto simp: field_line_def)

lemma header_count:
  "length (filter (\<lambda>l. l = ''User:'') (concat (map (record_block fmt) users))) = length users"
proof (induction users)
  case Nil
  show ?case by simp
next
  case (Cons user users)
  have "filter (\<lambda>l. l = ''User:'') (map (field_line fmt) user) = []"
    by (simp add: filter_empty_conv field_line_def)
  with Cons show ?case by (simp add: record_block_def)
qed

lemma record_blocks_nonempty: "users \<noteq> [] \<Longrightarrow> concat (map (record_block fmt) users) \<noteq> []"
  by (cases users) (simp_all add: record_block_def)

lemma no_newline_lines:
  assumes "\<forall>user \<in> set users. \<forall>kv \<in> set user.
             CHR 0x0A \<notin> set (fst kv) \<and> CHR 0x0A \<notin> set (fmt (snd kv))"
  shows "\<forall>l \<in> set (concat (map (record_block fmt) users)). CHR 0x0A \<notin> set l"
  using assms by (auto simp: record_block_def set_field_line)

lemma join_context_chars:
  "set (join_context fmt users) \<subseteq>
     set ''No user data available.'' \<union> set ''User:'' \<union> {CHR '' '', CHR '':'', CHR 0x0A} \<union>
     (\<Union>user \<in> set users. \<Union>kv \<in> set user. set (fst kv) \<union> set (fmt (snd kv)))"
proof (cases "users = []")
  case True
  then show ?thesis by (simp add: join_context_def)
next
  case False
  have "join_context fmt users = str_join newline (concat (map (record_block fmt) users))"
    using False by (simp add: join_context_def context_lines_eq)
  then have "set (join_context fmt users) \<subseteq>
          set newline \<union> \<Union> (set ` set (concat (map (record_block fmt) users)))"
    by (simp only: set_str_join)
  also have "\<dots> \<subseteq> set ''User:'' \<union> {CHR '' '', CHR '':'', CHR 0x0A} \<union>
     (\<Union>user \<in> set users. \<Union>kv \<in> set user. set (fst kv) \<union> set (fmt (snd kv)))"
    by (auto simp: newline_def record_block_def set_field_line)
  finally show ?thesis by blast
qed

text \<open>
  C5. The output of the context formatter is a function of the batch. On the empty
  batch it is the fixed text \<open>No user data available.\<close>; on a non-empty batch it
  is, joined by newlines, for each record in order the line \<open>User:\<close> followed by one
  line \<open>key: value\<close>, indented by two spaces, per field in the record's own order.
  When no key and no value's text contains a newline these are exactly the physical
  lines of the output, with one \<open>User:\<close> line per record.
\<close>

theorem C5_join_context_format:
  "join_context fmt [] = ''No user data available.'' \<and>
   (users \<noteq> [] \<longrightarrow>
      join_context fmt users = str_join newline (concat (map (record_block fmt) users)) \<and>
      ((\<forall>user \<in> set users. \<forall>kv \<in> set user.
           CHR 0x0A \<notin> set (fst kv) \<and> CHR 0x0A \<notin> set (fmt (snd kv))) \<longrightarrow>
         split_on (CHR 0x0A) (join_context fmt users) = concat (map (record_block fmt) users) \<and>
         length (filter (\<lambda>l. l = ''User:'') (split_on (CHR 0x0A) (join_context fmt users))) =
           length users))"
proof -
  have empty: "join_context fmt [] = ''No user data available.''"
    by (simp add: join_context_def)
  have joined: "join_context fmt users = str_join newline (concat (map (record_block fmt) users))"
    if "users \<noteq> []"
    using that by (simp add: join_context_def context_lines_eq)
  have physical: "split_on (CHR 0x0A) (join_context fmt users) = concat (map (record_block fmt) users)"
    if "users \<noteq> []"
      and "\<forall>user \<in> set users. \<forall>kv \<in> set user.
             CHR 0x0A \<notin> set (fst kv) \<and> CHR 0x0A \<notin> set (fmt (snd kv))"
    using split_on_join [OF record_blocks_nonempty [OF that(1)] no_newline_lines [OF that(2)]]
    by (simp add: joined [OF that(1)] newline_def)
  from empty joined physical show ?thesis
    by (simp add: header_count)
qed

theorem C5_join_context_format_witness:
  "[[(''name'', ''John''), (''surname'', ''Doe'')], [(''name'', ''Ann'')]] \<noteq> [] \<and>
   join_context format_str [[(''name'', ''John''), (''surname'', ''Doe'')], [(''name'', ''Ann'')]] =
     str_join newline [''User:'', ''  name: John'', ''  surname: Doe'', ''User:'', ''  name: Ann''] \<and>
   split_on (CHR 0x0A)
     (join_context format_str [[(''name'', ''John''), (''surname'', ''Doe'')], [(''name'', ''Ann'')]]) =
     [''User:'', ''  name: John'', ''  surname: Doe'', ''User:'', ''  name: Ann'']"
  using C5_join_context_format
    [of format_str "[[(''name'', ''John''), (''surname'', ''Doe'')], [(''name'', ''Ann'')]]"]
  by (simp add: record_block_def field_line_def newline_def format_str_def)

text \<open>
  C6, as amended. The formatter adds no quote character of its own: for every batch
  whose field names and values' texts hold no quote character, the output holds none.
  The claim as stated, for arbitrary text, fails: a quote character in a value is
  copied to the output as it is (the counterexample below).
\<close>

theorem C6_join_context_adds_no_quote:
  assumes "\<forall>user \<in> set users. \<forall>kv \<in> set user.
             (\<forall>c \<in> set (fst kv). \<not> is_quote c) \<and> (\<forall>c \<in> set (fmt (snd kv)). \<not> is_quote c)"
  shows "\<forall>c \<in> set (join_context fmt users). \<not> is_quote c"
proof
  fix c assume c: "c \<in> set (join_context fmt users)"
  show "\<not> is_quote c"
  proof
    assume q: "is_quote c"
    from c join_context_chars [of fmt users]
    have "c \<in> set ''No user data available.'' \<union> set ''User:'' \<union> {CHR '' '', CHR '':'', CHR 0x0A} \<or>
          (\<exists>user \<in> set users. \<exists>kv \<in> set user. c \<in> set (fst kv) \<union> set (fmt (snd kv)))"
      by blast
    then show False
    proof
      assume "c \<in> set ''No user data available.'' \<union> set ''User:'' \<union> {CHR '' '', CHR '':'', CHR 0x0A}"
      with q show False by (auto simp: is_quote_def)
    next
      assume "\<exists>user \<in> set users. \<exists>kv \<in> set user. c \<in> set (fst kv) \<union> set (fmt (snd kv))"
      with assms q show False by blast
    qed
  qed
qed

theorem C6_quote_counterexample:
  "CHR 0x22 \<in> set (join_context format_str [[(''name'', [CHR ''J'', CHR 0x22, CHR ''o''])]])"
  by (simp add: join_context_def format_str_def)

theorem C6_join_context_adds_no_quote_witness:
  "\<not> is_quote (CHR ''J'') \<and>
   CHR 0x22 \<notin> set (join_context format_str [[(''name'', ''John''), (''surname'', ''Doe'')]]) \<and>
   CHR 0x27 \<notin> set (join_context format_str [[(''name'', ''John''), (''surname'', ''Doe'')]])"
proof -
  have "\<forall>user \<in> set [[(''name'', ''John''), (''surname'', ''Doe'')]]. \<forall>kv \<in> set user.
          (\<forall>c \<in> set (fst kv). \<not> is_quote c) \<and> (\<forall>c \<in> set (format_str (snd kv)). \<not> is_quote c)"
    by (simp add: is_quote_def format_str_def)
  from C6_join_context_adds_no_quote [OF this]
  have "\<forall>c \<in> set (join_context format_str [[(''name'', ''John''), (''surname'', ''Doe'')]]). \<not> is_quote c" .
  then have "\<not> is_quote (CHR 0x22) \<or> CHR 0x22 \<notin> set (join_context format_str [[(''name'', ''John''), (''surname'', ''Doe'')]])"
    "\<not> is_quote (CHR 0x27) \<or> CHR 0x27 \<notin> set (join_context format_str [[(''name'', ''John''), (''surname'', ''Doe'')]])"
    by blast+
  then show ?thesis by (simp add: is_quote_def)
qed

section \<open>Properties of the model calls and of the search\<close>

lemma py_print_fields:
  "stdout (py_print s w) = stdout w @ s @ newline"
  "calls (py_print s w) = calls w"
  "token_tracker (py_print s w) = token_tracker w"
  by (simp_all add: py_print_def)

lemma print_summary_fields:
  "calls (print_summary w) = calls w"
  "token_tracker (print_summary w) = token_tracker w"
  "prefix (stdout w) (stdout (print_summary w))"
  by (simp_all add: print_summary_def Let_def py_print_fields)

lemma generate_response_start_fields:
  "stdout (generate_response_start s m w) = stdout w @ ''Processing...'' @ newline"
  "calls (generate_response_start s m w) = calls w @ [Ainvoke s m]"
  "token_tracker (generate_response_start s m w) = token_tracker w"
  by (simp_all add: generate_response_start_def Let_def py_print_fields)


lemma generate_response_finish_counted:
  assumes "token_usage_of r = Inr (Count n)"
  shows "fst (generate_response_finish r w) = Inr (content r)"
    and "token_tracker (snd (generate_response_finish r w)) = add_tokens (token_tracker w) n"
  using assms by (simp_all add: generate_response_finish_def Let_def py_print_fields)

lemma generate_response_finish_failed:
  "token_usage_of r = Inl e \<Longrightarrow> generate_response_finish r w = (Inl e, w)"
  "token_usage_of r = Inr NoCount \<Longrightarrow> generate_response_finish r w = (Inl TypeError, w)"
  by (simp_all add: generate_response_finish_def)


lemma filter_results_empty_iff:
  "filter_results batch_result = [] \<longleftrightarrow>
     (\<forall>res \<in> set batch_result. strip res = ''NO_MATCHES_FOUND'')"
  by (auto simp: filter_results_def filter_empty_conv)

lemma strip_blank:
  assumes "\<forall>c \<in> set line. is_space c"
  shows "strip line = []"
proof -
  from assms have e: "dropWhile is_space line = []"
    by (simp add: dropWhile_eq_Nil_conv)
  show ?thesis unfolding strip_def e by simp
qed

lemma token_usage_absent:
  assumes "response_metadata r ''token_usage'' = None \<or>
           (\<exists>usage. response_metadata r ''token_usage'' = Some (Usage usage) \<and>
                    usage ''total_tokens'' = None)"
  shows "token_usage_of r = Inr (Count 0)"
  using assms by (auto simp: token_usage_of_def dict_get_def)

lemma token_usage_not_a_dict:
  assumes "response_metadata r ''token_usage'' = Some NoUsage \<or>
           (\<exists>v. response_metadata r ''token_usage'' = Some (Other v))"
  shows "token_usage_of r = Inl AttributeError"
  using assms by (auto simp: token_usage_of_def dict_get_def)

lemma token_usage_total_none:
  assumes "response_metadata r ''token_usage'' = Some (Usage usage)"
    and "usage ''total_tokens'' = Some NoCount"
  shows "token_usage_of r = Inr NoCount"
  using assms by (simp add: token_usage_of_def dict_get_def)

lemma usage_readableD:
  "usage_readable r \<Longrightarrow> \<exists>n. token_usage_of r = Inr (Count n)"
  by (auto simp: usage_readable_def split: sum.splits token_count.splits)

lemma map_fst_answers: "map fst (answers env base tasks) = [0..<length tasks]"
proof -
  have "map fst (answers env base tasks) = map fst (enumerate 0 tasks)"
    by (simp add: answers_def case_prod_beta comp_def)
  then show ?thesis by (simp add: map_fst_enumerate)
qed

lemma complete_positional:
  assumes "\<forall>p \<in> set arrivals.
             fst p < n \<and> snd p = Inr (rs ! fst p) \<and> usage_readable (rs ! fst p)"
    and "length results = n"
  shows "\<exists>results' w'. complete arrival arrivals results w = (Inr results', w') \<and>
           length results' = n \<and>
           (\<forall>j < n. results' ! j =
              (if j \<in> fst ` set arrivals then content (rs ! j) else results ! j))"
  using assms
proof (induction arrivals arbitrary: results w)
  case Nil
  then show ?case by simp
next
  case (Cons p arrivals)
  obtain i where p: "p = (i, Inr (rs ! i))" and i: "i < n"
    and u: "usage_readable (rs ! i)"
    using Cons.prems(1) by (cases p) auto
  from usage_readableD [OF u] obtain k where k: "token_usage_of (rs ! i) = Inr (Count k)"
    by blast
  obtain w1 where fin: "generate_response_finish (rs ! i) w = (Inr (content (rs ! i)), w1)"
    using generate_response_finish_counted(1) [OF k, of w]
    by (cases "generate_response_finish (rs ! i) w") simp
  let ?w1 = w1
  let ?results1 = "results[i := content (rs ! i)]"
  have step: "complete arrival (p # arrivals) results w =
      complete arrival arrivals ?results1 ?w1"
    by (simp add: p fin)
  from Cons.prems have "\<forall>p \<in> set arrivals.
      fst p < n \<and> snd p = Inr (rs ! fst p) \<and> usage_readable (rs ! fst p)"
    and "length ?results1 = n"
    by simp_all
  from Cons.IH [OF this, of ?w1] obtain results' w' where
    run: "complete arrival arrivals ?results1 ?w1 = (Inr results', w')"
    and len: "length results' = n"
    and pos: "\<forall>j < n. results' ! j =
      (if j \<in> fst ` set arrivals then content (rs ! j) else ?results1 ! j)"
    by blast
  have "\<forall>j < n. results' ! j =
      (if j \<in> fst ` set (p # arrivals) then content (rs ! j) else results ! j)"
  proof (intro allI impI)
    fix j assume j: "j < n"
    with pos have "results' ! j =
      (if j \<in> fst ` set arrivals then content (rs ! j) else ?results1 ! j)"
      by blast
    moreover have "?results1 ! j = (if j = i then content (rs ! i) else results ! j)"
      using j i Cons.prems(2) by (simp add: nth_list_update)
    ultimately show "results' ! j =
      (if j \<in> fst ` set (p # arrivals) then content (rs ! j) else results ! j)"
      by (auto simp: p)
  qed
  with step run len show ?case by auto
qed

lemma gather_positional:
  assumes "map snd (answers env (length (calls w)) tasks) = map Inr rs"
    and readable: "\<forall>r \<in> set rs. usage_readable r"
  shows "fst (gather env tasks w) = Inr (map content rs)"
proof -
  let ?base = "length (calls w)"
  let ?as = "answers env ?base tasks"
  let ?arrival = "\<lambda>i. latency env (?base + i)"
  let ?arrivals = "sort_key (\<lambda>(i, a). ?arrival i) ?as"
  let ?n = "length tasks"
  from assms have "length (map snd ?as) = length (map Inr rs)" by simp
  then have n: "length rs = ?n"
    using map_fst_answers [of env ?base tasks, THEN arg_cong, of length] by simp
  have fsts: "map fst ?as = [0..<?n]" by (rule map_fst_answers)
  have each: "\<forall>p \<in> set ?as.
      fst p < ?n \<and> snd p = Inr (rs ! fst p) \<and> usage_readable (rs ! fst p)"
  proof
    fix p assume "p \<in> set ?as"
    then obtain k where k: "k < length ?as" and pk: "p = ?as ! k"
      by (auto simp: in_set_conv_nth)
    have l: "length ?as = ?n"
      using fsts [THEN arg_cong, of length] by simp
    from k l have "fst p = k"
      using fsts pk by (metis nth_map nth_upt add_0 length_map)
    moreover from k l n have "snd p = Inr (rs ! k)"
      using assms(1) pk by (metis nth_map length_map)
    moreover from k l n readable have "usage_readable (rs ! k)"
      by simp
    ultimately show "fst p < ?n \<and> snd p = Inr (rs ! fst p) \<and> usage_readable (rs ! fst p)"
      using k l by simp
  qed
  then have "\<forall>p \<in> set ?arrivals.
      fst p < ?n \<and> snd p = Inr (rs ! fst p) \<and> usage_readable (rs ! fst p)"
    by simp
  from complete_positional [OF this, of "replicate ?n []" ?arrival "dispatch tasks w"]
  obtain results' w' where
    run: "complete ?arrival ?arrivals (replicate ?n []) (dispatch tasks w) = (Inr results', w')"
    and len: "length results' = ?n"
    and pos: "\<forall>j < ?n. results' ! j =
      (if j \<in> fst ` set ?arrivals then content (rs ! j) else replicate ?n [] ! j)"
    by auto
  have "fst ` set ?arrivals = {0..<?n}"
    using fsts [THEN arg_cong, of set] by simp
  with pos have "\<forall>j < ?n. results' ! j = content (rs ! j)" by simp
  with len n have "results' = map content rs"
    by (intro nth_equalityI) simp_all
  with run show ?thesis
    by (simp add: gather_def Let_def)
qed

text \<open>
  C2. The filter keeps exactly the results whose stripped text is not
  \<open>NO_MATCHES_FOUND\<close>, in their original order: the kept results are those at the
  positions of the non-sentinel results, in increasing position. Of
  \<open>NO_MATCHES_FOUND\<close>, \<open>Jane, age 30\<close> and the sentinel between spaces only
  \<open>Jane, age 30\<close> is kept. The batch results themselves are in the order of the
  batches whatever the order in which the answers arrive: when every batch call is
  answered, with usage data that line 98 can read, \<open>gather\<close> returns the
  answers' contents by position of the task.
\<close>

theorem C2_filter_results:
  "(\<forall>res. res \<in> set (filter_results batch_result) \<longleftrightarrow>
       res \<in> set batch_result \<and> strip res \<noteq> ''NO_MATCHES_FOUND'') \<and>
   subseq (filter_results batch_result) batch_result \<and>
   filter_results batch_result =
     nths batch_result
       {i. i < length batch_result \<and> strip (batch_result ! i) \<noteq> ''NO_MATCHES_FOUND''} \<and>
   filter_results [''NO_MATCHES_FOUND'', ''Jane, age 30'', ''  NO_MATCHES_FOUND  ''] =
     [''Jane, age 30''] \<and>
   (map snd (answers env (length (calls w)) tasks) = map Inr rs \<and>
    (\<forall>r \<in> set rs. usage_readable r) \<longrightarrow>
      fst (gather env tasks w) = Inr (map content rs))"
proof -
  have members: "\<forall>res. res \<in> set (filter_results batch_result) \<longleftrightarrow>
       res \<in> set batch_result \<and> strip res \<noteq> ''NO_MATCHES_FOUND''"
    by (simp add: filter_results_def)
  have order: "subseq (filter_results batch_result) batch_result"
    by (simp add: filter_results_def)
  have positions: "filter_results batch_result =
     nths batch_result
       {i. i < length batch_result \<and> strip (batch_result ! i) \<noteq> ''NO_MATCHES_FOUND''}"
    unfolding filter_results_def by (rule filter_eq_nths)
  have example: "filter_results [''NO_MATCHES_FOUND'', ''Jane, age 30'', ''  NO_MATCHES_FOUND  ''] =
     [''Jane, age 30'']"
    by (simp add: filter_results_def strip_def is_space_def)
  from members order positions example gather_positional [of env w tasks rs]
  show ?thesis by blast
qed

theorem C2_filter_results_witness:
  "map snd (answers example_env (length (calls world_init))
      [(''s'', ''a''), (''s'', ''b''), (''s'', ''c'')]) =
     map Inr
       [\<lparr>content = ''NO_MATCHES_FOUND'', response_metadata = Map.empty\<rparr>,
        \<lparr>content = ''Jane, age 30'',
           response_metadata = [''token_usage'' \<mapsto> Usage [''total_tokens'' \<mapsto> Count 120]]\<rparr>,
        \<lparr>content = ''  NO_MATCHES_FOUND  '',
           response_metadata = [''token_usage'' \<mapsto> Usage [''total_tokens'' \<mapsto> Count 80]]\<rparr>] \<and>
   usage_readable \<lparr>content = ''NO_MATCHES_FOUND'', response_metadata = Map.empty\<rparr> \<and>
   usage_readable \<lparr>content = ''Jane, age 30'',
      response_metadata = [''token_usage'' \<mapsto> Usage [''total_tokens'' \<mapsto> Count 120]]\<rparr> \<and>
   usage_readable \<lparr>content = ''  NO_MATCHES_FOUND  '',
      response_metadata = [''token_usage'' \<mapsto> Usage [''total_tokens'' \<mapsto> Count 80]]\<rparr> \<and>
   fst (gather example_env [(''s'', ''a''), (''s'', ''b''), (''s'', ''c'')] world_init) =
     Inr [''NO_MATCHES_FOUND'', ''Jane, age 30'', ''  NO_MATCHES_FOUND  ''] \<and>
   batch_tokens (token_tracker (snd (gather example_env
       [(''s'', ''a''), (''s'', ''b''), (''s'', ''c'')] world_init))) = [80, 120, 0] \<and>
   filter_results [''NO_MATCHES_FOUND'', ''Jane, age 30'', ''  NO_MATCHES_FOUND  ''] =
     [''Jane, age 30'']"
proof -
  let ?rs = "[\<lparr>content = ''NO_MATCHES_FOUND'', response_metadata = Map.empty\<rparr>,
        \<lparr>content = ''Jane, age 30'',
           response_metadata = [''token_usage'' \<mapsto> Usage [''total_tokens'' \<mapsto> Count 120]]\<rparr>,
        \<lparr>content = ''  NO_MATCHES_FOUND  '',
           response_metadata = [''token_usage'' \<mapsto> Usage [''total_tokens'' \<mapsto> Count 80]]\<rparr>]"
  have h: "map snd (answers example_env (length (calls world_init))
      [(''s'', ''a''), (''s'', ''b''), (''s'', ''c'')]) = map Inr ?rs"
    by (simp add: answers_def example_env_def world_init_def enumerate_eq_zip upt_rec)
  have u: "\<forall>r \<in> set ?rs. usage_readable r"
    by (simp add: usage_readable_def token_usage_of_def dict_get_def)
  have t: "batch_tokens (token_tracker (snd (gather example_env
       [(''s'', ''a''), (''s'', ''b''), (''s'', ''c'')] world_init))) = [80, 120, 0]"
    by (simp add: gather_def answers_def example_env_def world_init_def enumerate_eq_zip upt_rec
        Let_def generate_response_finish_def generate_response_start_def py_print_def
        token_usage_of_def dict_get_def add_tokens_def TokenTracker_init_def)
  have f: "filter_results [''NO_MATCHES_FOUND'', ''Jane, age 30'', ''  NO_MATCHES_FOUND  ''] =
     [''Jane, age 30'']"
    and g: "map snd (answers example_env (length (calls world_init))
        [(''s'', ''a''), (''s'', ''b''), (''s'', ''c'')]) = map Inr ?rs \<and>
      (\<forall>r \<in> set ?rs. usage_readable r) \<longrightarrow>
      fst (gather example_env [(''s'', ''a''), (''s'', ''b''), (''s'', ''c'')] world_init) = Inr (map content ?rs)"
    using C2_filter_results [of "[]" example_env world_init
      "[(''s'', ''a''), (''s'', ''b''), (''s'', ''c'')]"
      "[\<lparr>content = ''NO_MATCHES_FOUND'', response_metadata = Map.empty\<rparr>,
        \<lparr>content = ''Jane, age 30'',
           response_metadata = [''token_usage'' \<mapsto> Usage [''total_tokens'' \<mapsto> Count 120]]\<rparr>,
        \<lparr>content = ''  NO_MATCHES_FOUND  '',
           response_metadata = [''token_usage'' \<mapsto> Usage [''total_tokens'' \<mapsto> Count 80]]\<rparr>]"]
    by blast+
  from g h u have "fst (gather example_env [(''s'', ''a''), (''s'', ''b''), (''s'', ''c'')] world_init) =
      Inr [''NO_MATCHES_FOUND'', ''Jane, age 30'', ''  NO_MATCHES_FOUND  '']"
    by simp
  with h t f u show ?thesis by simp
qed

text \<open>
  C3. When every batch result, stripped, is the sentinel, no model call is made for
  a synthesis: the calls made are unchanged, the tracker is unchanged, nothing is
  raised, and the line \<open>No users found matching the search criteria.\<close> is printed
  next, followed by the usage summary.
\<close>

theorem C3_all_sentinel_no_synthesis:
  assumes "\<forall>res \<in> set batch_result. strip res = ''NO_MATCHES_FOUND''"
  shows "aggregate_results env user_question batch_result w =
           (Inr (), print_summary (py_print ''No users found matching the search criteria.'' w)) \<and>
         calls (snd (aggregate_results env user_question batch_result w)) = calls w \<and>
         token_tracker (snd (aggregate_results env user_question batch_result w)) = token_tracker w \<and>
         prefix (stdout w @ ''No users found matching the search criteria.'' @ newline)
           (stdout (snd (aggregate_results env user_question batch_result w)))"
proof -
  from assms have none: "filter_results batch_result = []"
    by (simp add: filter_results_empty_iff)
  then have run: "aggregate_results env user_question batch_result w =
           (Inr (), print_summary (py_print ''No users found matching the search criteria.'' w))"
    by (simp add: aggregate_results_def)
  have out: "prefix (stdout w @ ''No users found matching the search criteria.'' @ newline)
      (stdout (print_summary (py_print ''No users found matching the search criteria.'' w)))"
    using print_summary_fields(3) [of "py_print ''No users found matching the search criteria.'' w"]
    by (simp only: py_print_fields)
  from run out show ?thesis
    by (simp only: snd_conv print_summary_fields py_print_fields simp_thms)
qed

theorem C3_all_sentinel_no_synthesis_witness:
  "strip ''NO_MATCHES_FOUND'' = ''NO_MATCHES_FOUND'' \<and>
   strip ''  NO_MATCHES_FOUND  '' = ''NO_MATCHES_FOUND'' \<and>
   calls (snd (aggregate_results example_env ''Who is 30?''
                 [''NO_MATCHES_FOUND'', ''  NO_MATCHES_FOUND  ''] world_init)) = [] \<and>
   stdout (snd (aggregate_results example_env ''Who is 30?''
                 [''NO_MATCHES_FOUND'', ''  NO_MATCHES_FOUND  ''] world_init)) =
     ''No users found matching the search criteria.'' @ newline @ newline @
     ''--- Token Usage Summary ---'' @ newline @
     ''Total tokens used: 0'' @ newline @
     ''Number of batches processed: 0'' @ newline @
     ''Tokens used per batch: []'' @ newline"
proof -
  have h: "\<forall>res \<in> set [''NO_MATCHES_FOUND'', ''  NO_MATCHES_FOUND  ''].
             strip res = ''NO_MATCHES_FOUND''"
    by (simp add: strip_def is_space_def)
  from C3_all_sentinel_no_synthesis [OF h, of example_env "''Who is 30?''" world_init] h
  show ?thesis
    by (simp add: world_init_def print_summary_def py_print_def Let_def get_summary_def
        TokenTracker_init_def str_int_def str_nat.simps str_int_list_def)
qed



text \<open>
  C7. When the line read consists of whitespace only (or is empty), the stripped query
  is empty and \<open>main\<close> ends without an error right after the prompt: nothing more is
  printed, no collaborator is called (no user fetch, no model call) and the tracker is
  unchanged.
\<close>

theorem C7_blank_query_skips_search:
  assumes "stdin_line env = Some line" and "\<forall>c \<in> set line. is_space c"
  shows "strip line = [] \<and>
         main fmt env w =
           (Inr (), w\<lparr>stdout := stdout w @ ''Query samples:'' @ newline @
              '' - Do we have someone with name John that loves traveling?'' @ newline @ ''> ''\<rparr>) \<and>
         calls (snd (main fmt env w)) = calls w \<and>
         token_tracker (snd (main fmt env w)) = token_tracker w"
proof -
  from assms(2) have blank: "strip line = []" by (rule strip_blank)
  with assms(1) have run: "main fmt env w =
           (Inr (), w\<lparr>stdout := stdout w @ ''Query samples:'' @ newline @
              '' - Do we have someone with name John that loves traveling?'' @ newline @ ''> ''\<rparr>)"
    by (simp add: main_def Let_def py_print_def)
  from blank run show ?thesis by simp
qed

theorem C7_blank_query_skips_search_witness:
  "stdin_line example_env = Some ''   '' \<and> is_space CHR '' '' \<and>
   main format_str example_env world_init =
     (Inr (), \<lparr>token_tracker = TokenTracker_init,
        stdout = ''Query samples:'' @ newline @
          '' - Do we have someone with name John that loves traveling?'' @ newline @ ''> '',
        calls = []\<rparr>)"
proof -
  have h1: "stdin_line example_env = Some ''   ''"
    by (simp add: example_env_def)
  have h2: "\<forall>c \<in> set ''   ''. is_space c"
    by (simp add: is_space_def)
  from C7_blank_query_skips_search [OF h1 h2, of format_str world_init] h1 show ?thesis
    by (simp add: world_init_def is_space_def)
qed

lemma generate_response_usage_absent:
  assumes "ainvoke env (length (calls w)) system_prompt user_message = Inr r"
    and "response_metadata r ''token_usage'' = None \<or>
         (\<exists>usage. response_metadata r ''token_usage'' = Some (Usage usage) \<and>
                  usage ''total_tokens'' = None)"
  shows "fst (generate_response env system_prompt user_message w) = Inr (content r)"
    and "token_tracker (snd (generate_response env system_prompt user_message w)) =
           add_tokens (token_tracker w) 0"
proof -
  from assms(2) have zero: "token_usage_of r = Inr (Count 0)"
    by (rule token_usage_absent)
  let ?w1 = "generate_response_start system_prompt user_message w"
  from assms(1) have run: "generate_response env system_prompt user_message w =
      generate_response_finish r ?w1"
    by (simp add: generate_response_def Let_def)
  show "fst (generate_response env system_prompt user_message w) = Inr (content r)"
    by (simp add: run generate_response_finish_counted [OF zero])
  show "token_tracker (snd (generate_response env system_prompt user_message w)) =
           add_tokens (token_tracker w) 0"
    by (simp add: run generate_response_finish_counted [OF zero] generate_response_start_fields)
qed

lemma generate_response_usage_none:
  assumes "ainvoke env (length (calls w)) system_prompt user_message = Inr r"
    and "response_metadata r ''token_usage'' = Some NoUsage"
  shows "generate_response env system_prompt user_message w =
           (Inl AttributeError, generate_response_start system_prompt user_message w)"
proof -
  from assms(2) have "token_usage_of r = Inl AttributeError"
    by (simp add: token_usage_not_a_dict)
  with assms(1) show ?thesis
    by (simp add: generate_response_def Let_def generate_response_finish_failed)
qed

lemma generate_response_total_none:
  assumes "ainvoke env (length (calls w)) system_prompt user_message = Inr r"
    and "response_metadata r ''token_usage'' = Some (Usage usage)"
    and "usage ''total_tokens'' = Some NoCount"
  shows "generate_response env system_prompt user_message w =
           (Inl TypeError, generate_response_start system_prompt user_message w)"
proof -
  from assms(2,3) have "token_usage_of r = Inr NoCount"
    by (rule token_usage_total_none)
  with assms(1) show ?thesis
    by (simp add: generate_response_def Let_def generate_response_finish_failed)
qed

text \<open>
  C8. The statement is that a response whose metadata lack usage data is recorded as
  0 tokens and raises nothing. The code does so when the \<open>token_usage\<close> entry is
  absent (or the usage dictionary has no \<open>total_tokens\<close>): the first conjunct below.
  It does not when the entry is present and \<open>None\<close>: the defaults of the two
  \<open>get\<close> calls apply to absent keys only, so line 98 raises \<open>AttributeError\<close>,
  the exception leaves \<open>generate_response\<close>, and the tracker records nothing; with
  \<open>'total_tokens': None\<close> it is \<open>add_tokens\<close> that raises \<open>TypeError\<close>.
\<close>

theorem C8_usage_none_raises:
  "fst (generate_response example_env ''sys'' ''msg'' world_init) = Inr ''NO_MATCHES_FOUND'' \<and>
   token_tracker (snd (generate_response example_env ''sys'' ''msg'' world_init)) =
     \<lparr>total_tokens = 0, batch_tokens = [0]\<rparr> \<and>
   fst (generate_response usage_none_env ''sys'' ''msg'' world_init) = Inl AttributeError \<and>
   token_tracker (snd (generate_response usage_none_env ''sys'' ''msg'' world_init)) =
     \<lparr>total_tokens = 0, batch_tokens = []\<rparr> \<and>
   fst (generate_response total_none_env ''sys'' ''msg'' world_init) = Inl TypeError \<and>
   token_tracker (snd (generate_response total_none_env ''sys'' ''msg'' world_init)) =
     \<lparr>total_tokens = 0, batch_tokens = []\<rparr>"
proof -
  have a0: "ainvoke example_env (length (calls world_init)) ''sys'' ''msg'' =
      Inr \<lparr>content = ''NO_MATCHES_FOUND'', response_metadata = Map.empty\<rparr>"
    by (simp add: example_env_def world_init_def)
  have a1: "ainvoke usage_none_env (length (calls world_init)) ''sys'' ''msg'' =
      Inr \<lparr>content = ''Jane, age 30'', response_metadata = [''token_usage'' \<mapsto> NoUsage]\<rparr>"
    by (simp add: usage_none_env_def)
  have a2: "ainvoke total_none_env (length (calls world_init)) ''sys'' ''msg'' =
      Inr \<lparr>content = ''Jane, age 30'',
           response_metadata = [''token_usage'' \<mapsto> Usage [''total_tokens'' \<mapsto> NoCount]]\<rparr>"
    by (simp add: total_none_env_def)
  have absent: "fst (generate_response example_env ''sys'' ''msg'' world_init) =
      Inr ''NO_MATCHES_FOUND''"
    "token_tracker (snd (generate_response example_env ''sys'' ''msg'' world_init)) =
      \<lparr>total_tokens = 0, batch_tokens = [0]\<rparr>"
    using generate_response_usage_absent [OF a0]
    by (simp_all add: world_init_def TokenTracker_init_def add_tokens_def Let_def)
  have none: "fst (generate_response usage_none_env ''sys'' ''msg'' world_init) =
      Inl AttributeError"
    "token_tracker (snd (generate_response usage_none_env ''sys'' ''msg'' world_init)) =
      \<lparr>total_tokens = 0, batch_tokens = []\<rparr>"
    using generate_response_usage_none [OF a1]
    by (simp_all add: generate_response_start_fields world_init_def TokenTracker_init_def)
  have total: "fst (generate_response total_none_env ''sys'' ''msg'' world_init) =
      Inl TypeError"
    "token_tracker (snd (generate_response total_none_env ''sys'' ''msg'' world_init)) =
      \<lparr>total_tokens = 0, batch_tokens = []\<rparr>"
    using generate_response_total_none [OF a2]
    by (simp_all add: generate_response_start_fields world_init_def TokenTracker_init_def)
  from absent none total show ?thesis by blast
qed

end
